theory Spec2Isabelle
  imports Main
begin

section \<open>Python values, exceptions and the dispatch table\<close>

text \<open>
  The state module \<^verbatim>\<open>salt/states/junos.py\<close> consists of sixteen public functions.
  Each one builds the dictionary
  \<^verbatim>\<open>{'name': name, 'changes': {}, 'result': True, 'comment': ''}\<close>,
  looks its execution-module function up in the name-indexed table \<^verbatim>\<open>__salt__\<close>,
  calls it, stores what it returns under \<^verbatim>\<open>'changes'\<close> and returns the dictionary.

  Python values are dynamically typed: every parameter is a \<open>pyval\<close>.
\<close>

datatype pyval =
    PNone
  | PBool bool
  | PInt int
  | PStr string
  | PList "pyval list"
  | PDict "(pyval \<times> pyval) list"

text \<open>The keyword arguments collected by \<^verbatim>\<open>**kwargs\<close>: names with values, in call order.\<close>

type_synonym kwargs = "(string \<times> pyval) list"

text \<open>
  Exceptions. \<open>KeyError\<close> is raised by the subscript \<^verbatim>\<open>__salt__['junos.x']\<close> on a
  name that is not loaded, \<open>TypeError\<close> by \<^verbatim>\<open>*args\<close> on a value that cannot be
  iterated. The others are the error taxonomy of the session manager; \<open>DelegateError\<close>
  stands for any other exception an execution-module function raises.
\<close>

datatype exn =
    KeyError string
  | TypeError
  | ConnectionError
  | TimeoutError
  | AlreadyLockedError
  | NotLockedError
  | ParseError
  | FormatMismatchError
  | ValidationError
  | CommitError
  | RollbackError
  | DelegateError string

text \<open>
  An execution-module function receives positional and keyword arguments, acts on the
  device (the state \<open>'d\<close>) and either raises or returns a value.
\<close>

type_synonym 'd delegate = "pyval list \<Rightarrow> kwargs \<Rightarrow> 'd \<Rightarrow> (exn + pyval) \<times> 'd"

type_synonym 'd salt_table = "string \<rightharpoonup> 'd delegate"

text \<open>
  The world a state function runs in: the device, and the log of the calls made through
  the dispatch table so far (name, positional arguments, keyword arguments). The log is
  written by \<open>invoke\<close> only; a delegate sees and changes the device alone.
\<close>

record 'd world =
  calls :: "(string \<times> pyval list \<times> kwargs) list"
  dev :: 'd

text \<open>The returned dictionary.\<close>

type_synonym ret = "string \<rightharpoonup> pyval"

definition new_ret :: "pyval \<Rightarrow> ret" where
  "new_ret name =
     [''name'' \<mapsto> name, ''changes'' \<mapsto> PDict [], ''result'' \<mapsto> PBool True,
      ''comment'' \<mapsto> PStr '''']"

text \<open>\<^verbatim>\<open>__salt__[key]\<close>\<close>

definition lookup :: "'d salt_table \<Rightarrow> string \<Rightarrow> exn + 'd delegate" where
  "lookup salt key = (case salt key of None \<Rightarrow> Inl (KeyError key) | Some f \<Rightarrow> Inr f)"

text \<open>The call \<^verbatim>\<open>f(*pos, **kw)\<close> of a function found under \<open>key\<close>.\<close>

definition invoke ::
  "string \<Rightarrow> 'd delegate \<Rightarrow> pyval list \<Rightarrow> kwargs \<Rightarrow> 'd world \<Rightarrow> (exn + pyval) \<times> 'd world" where
  "invoke key f pos kw w =
     (case f pos kw (dev w) of
        (r, d') \<Rightarrow> (r, \<lparr>calls = calls w @ [(key, pos, kw)], dev = d'\<rparr>))"

text \<open>
  \<^verbatim>\<open>ret['changes'] = <call>; return ret\<close>: an exception of the call leaves the function
  at once, and no dictionary is returned.
\<close>

definition store_changes :: "ret \<Rightarrow> (exn + pyval) \<times> 'd world \<Rightarrow> (exn + ret) \<times> 'd world" where
  "store_changes r out =
     (case out of
        (Inl e, w') \<Rightarrow> (Inl e, w')
      | (Inr v, w') \<Rightarrow> (Inr (r(''changes'' \<mapsto> v)), w'))"

text \<open>
  \<^verbatim>\<open>ret['changes'] = __salt__[key](*pos, **kw)\<close>: the subscript is evaluated first,
  then the call.
\<close>

definition delegate_to ::
  "'d salt_table \<Rightarrow> string \<Rightarrow> ret \<Rightarrow> pyval list \<Rightarrow> kwargs \<Rightarrow> 'd world \<Rightarrow> (exn + ret) \<times> 'd world" where
  "delegate_to salt key r pos kw w =
     (case lookup salt key of
        Inl e \<Rightarrow> (Inl e, w)
      | Inr f \<Rightarrow> store_changes r (invoke key f pos kw w))"

text \<open>
  The elements \<^verbatim>\<open>*args\<close> passes: those of a list, the characters of a string, the keys
  of a dictionary; \<open>None\<close>, booleans and integers are not iterable.
\<close>

fun unpack :: "pyval \<Rightarrow> exn + pyval list" where
  "unpack (PList xs) = Inr xs"
| "unpack (PStr s) = Inr (map (\<lambda>c. PStr [c]) s)"
| "unpack (PDict kvs) = Inr (map fst kvs)"
| "unpack PNone = Inl TypeError"
| "unpack (PBool b) = Inl TypeError"
| "unpack (PInt i) = Inl TypeError"

section \<open>The state functions\<close>

text \<open>
  \<^verbatim>\<open>def rpc(name, dest=None, format='xml', args=None, **kwargs)\<close>. In the branch
  \<^verbatim>\<open>args is not None\<close> the callee \<^verbatim>\<open>__salt__['junos.rpc']\<close> is evaluated before
  \<^verbatim>\<open>*args\<close> is unpacked.
\<close>

definition rpc ::
  "'d salt_table \<Rightarrow> pyval \<Rightarrow> pyval \<Rightarrow> pyval \<Rightarrow> pyval \<Rightarrow> kwargs \<Rightarrow> 'd world \<Rightarrow> (exn + ret) \<times> 'd world" where
  "rpc salt name dest format args kwargs w =
     (let r = new_ret name in
      if args \<noteq> PNone then
        (case lookup salt ''junos.rpc'' of
           Inl e \<Rightarrow> (Inl e, w)
         | Inr f \<Rightarrow>
             (case unpack args of
                Inl e \<Rightarrow> (Inl e, w)
              | Inr xs \<Rightarrow>
                  store_changes r (invoke ''junos.rpc'' f ([name, dest, format] @ xs) kwargs w)))
      else delegate_to salt ''junos.rpc'' r [name, dest, format] kwargs w)"

definition set_hostname ::
  "'d salt_table \<Rightarrow> pyval \<Rightarrow> kwargs \<Rightarrow> 'd world \<Rightarrow> (exn + ret) \<times> 'd world" where
  "set_hostname salt name kwargs w =
     (let r = new_ret name in delegate_to salt ''junos.set_hostname'' r [name] kwargs w)"

definition commit ::
  "'d salt_table \<Rightarrow> pyval \<Rightarrow> kwargs \<Rightarrow> 'd world \<Rightarrow> (exn + ret) \<times> 'd world" where
  "commit salt name kwargs w =
     (let r = new_ret name in delegate_to salt ''junos.commit'' r [] kwargs w)"

definition rollback ::
  "'d salt_table \<Rightarrow> pyval \<Rightarrow> pyval \<Rightarrow> kwargs \<Rightarrow> 'd world \<Rightarrow> (exn + ret) \<times> 'd world" where
  "rollback salt name id' kwargs w =
     (let r = new_ret name in delegate_to salt ''junos.rollback'' r [id'] kwargs w)"

definition diff ::
  "'d salt_table \<Rightarrow> pyval \<Rightarrow> pyval \<Rightarrow> 'd world \<Rightarrow> (exn + ret) \<times> 'd world" where
  "diff salt name d_id w =
     (let r = new_ret name in delegate_to salt ''junos.diff'' r [d_id] [] w)"

definition cli ::
  "'d salt_table \<Rightarrow> pyval \<Rightarrow> pyval \<Rightarrow> kwargs \<Rightarrow> 'd world \<Rightarrow> (exn + ret) \<times> 'd world" where
  "cli salt name format kwargs w =
     (let r = new_ret name in delegate_to salt ''junos.cli'' r [name, format] kwargs w)"

definition shutdown ::
  "'d salt_table \<Rightarrow> pyval \<Rightarrow> kwargs \<Rightarrow> 'd world \<Rightarrow> (exn + ret) \<times> 'd world" where
  "shutdown salt name kwargs w =
     (let r = new_ret name in delegate_to salt ''junos.shutdown'' r [] kwargs w)"

definition install_config ::
  "'d salt_table \<Rightarrow> pyval \<Rightarrow> kwargs \<Rightarrow> 'd world \<Rightarrow> (exn + ret) \<times> 'd world" where
  "install_config salt name kwargs w =
     (let r = new_ret name in delegate_to salt ''junos.install_config'' r [name] kwargs w)"

definition zeroize :: "'d salt_table \<Rightarrow> pyval \<Rightarrow> 'd world \<Rightarrow> (exn + ret) \<times> 'd world" where
  "zeroize salt name w =
     (let r = new_ret name in delegate_to salt ''junos.zeroize'' r [] [] w)"

definition install_os ::
  "'d salt_table \<Rightarrow> pyval \<Rightarrow> kwargs \<Rightarrow> 'd world \<Rightarrow> (exn + ret) \<times> 'd world" where
  "install_os salt name kwargs w =
     (let r = new_ret name in delegate_to salt ''junos.install_os'' r [name] kwargs w)"

definition file_copy ::
  "'d salt_table \<Rightarrow> pyval \<Rightarrow> pyval \<Rightarrow> kwargs \<Rightarrow> 'd world \<Rightarrow> (exn + ret) \<times> 'd world" where
  "file_copy salt name dest kwargs w =
     (let r = new_ret name in delegate_to salt ''junos.file_copy'' r [name, dest] kwargs w)"

definition lock :: "'d salt_table \<Rightarrow> pyval \<Rightarrow> 'd world \<Rightarrow> (exn + ret) \<times> 'd world" where
  "lock salt name w =
     (let r = new_ret name in delegate_to salt ''junos.lock'' r [] [] w)"

definition unlock :: "'d salt_table \<Rightarrow> pyval \<Rightarrow> 'd world \<Rightarrow> (exn + ret) \<times> 'd world" where
  "unlock salt name w =
     (let r = new_ret name in delegate_to salt ''junos.unlock'' r [] [] w)"

definition load ::
  "'d salt_table \<Rightarrow> pyval \<Rightarrow> kwargs \<Rightarrow> 'd world \<Rightarrow> (exn + ret) \<times> 'd world" where
  "load salt name kwargs w =
     (let r = new_ret name in delegate_to salt ''junos.load'' r [name] kwargs w)"

definition commit_check :: "'d salt_table \<Rightarrow> pyval \<Rightarrow> 'd world \<Rightarrow> (exn + ret) \<times> 'd world" where
  "commit_check salt name w =
     (let r = new_ret name in delegate_to salt ''junos.commit_check'' r [] [] w)"

definition get_table ::
  "'d salt_table \<Rightarrow> pyval \<Rightarrow> pyval \<Rightarrow> pyval \<Rightarrow> pyval \<Rightarrow> 'd world \<Rightarrow> (exn + ret) \<times> 'd world" where
  "get_table salt name table file path w =
     (let r = new_ret name in delegate_to salt ''junos.get_table'' r [table, file, path] [] w)"

text \<open>One call of a public function, with its arguments as the caller bound them.\<close>

datatype op_call =
    Rpc pyval pyval pyval pyval kwargs
  | SetHostname pyval kwargs
  | Commit pyval kwargs
  | Rollback pyval pyval kwargs
  | Diff pyval pyval
  | Cli pyval pyval kwargs
  | Shutdown pyval kwargs
  | InstallConfig pyval kwargs
  | Zeroize pyval
  | InstallOs pyval kwargs
  | FileCopy pyval pyval kwargs
  | Lock pyval
  | Unlock pyval
  | Load pyval kwargs
  | CommitCheck pyval
  | GetTable pyval pyval pyval pyval

fun run_op :: "'d salt_table \<Rightarrow> op_call \<Rightarrow> 'd world \<Rightarrow> (exn + ret) \<times> 'd world" where
  "run_op salt (Rpc name dest format args kwargs) w = rpc salt name dest format args kwargs w"
| "run_op salt (SetHostname name kwargs) w = set_hostname salt name kwargs w"
| "run_op salt (Commit name kwargs) w = commit salt name kwargs w"
| "run_op salt (Rollback name id' kwargs) w = rollback salt name id' kwargs w"
| "run_op salt (Diff name d_id) w = diff salt name d_id w"
| "run_op salt (Cli name format kwargs) w = cli salt name format kwargs w"
| "run_op salt (Shutdown name kwargs) w = shutdown salt name kwargs w"
| "run_op salt (InstallConfig name kwargs) w = install_config salt name kwargs w"
| "run_op salt (Zeroize name) w = zeroize salt name w"
| "run_op salt (InstallOs name kwargs) w = install_os salt name kwargs w"
| "run_op salt (FileCopy name dest kwargs) w = file_copy salt name dest kwargs w"
| "run_op salt (Lock name) w = lock salt name w"
| "run_op salt (Unlock name) w = unlock salt name w"
| "run_op salt (Load name kwargs) w = load salt name kwargs w"
| "run_op salt (CommitCheck name) w = commit_check salt name w"
| "run_op salt (GetTable name table file path) w = get_table salt name table file path w"

text \<open>The \<^verbatim>\<open>name\<close> argument of a call, and the table entry its function subscripts.\<close>

fun op_name :: "op_call \<Rightarrow> pyval" where
  "op_name (Rpc name dest format args kwargs) = name"
| "op_name (SetHostname name kwargs) = name"
| "op_name (Commit name kwargs) = name"
| "op_name (Rollback name id' kwargs) = name"
| "op_name (Diff name d_id) = name"
| "op_name (Cli name format kwargs) = name"
| "op_name (Shutdown name kwargs) = name"
| "op_name (InstallConfig name kwargs) = name"
| "op_name (Zeroize name) = name"
| "op_name (InstallOs name kwargs) = name"
| "op_name (FileCopy name dest kwargs) = name"
| "op_name (Lock name) = name"
| "op_name (Unlock name) = name"
| "op_name (Load name kwargs) = name"
| "op_name (CommitCheck name) = name"
| "op_name (GetTable name table file path) = name"

fun op_key :: "op_call \<Rightarrow> string" where
  "op_key (Rpc name dest format args kwargs) = ''junos.rpc''"
| "op_key (SetHostname name kwargs) = ''junos.set_hostname''"
| "op_key (Commit name kwargs) = ''junos.commit''"
| "op_key (Rollback name id' kwargs) = ''junos.rollback''"
| "op_key (Diff name d_id) = ''junos.diff''"
| "op_key (Cli name format kwargs) = ''junos.cli''"
| "op_key (Shutdown name kwargs) = ''junos.shutdown''"
| "op_key (InstallConfig name kwargs) = ''junos.install_config''"
| "op_key (Zeroize name) = ''junos.zeroize''"
| "op_key (InstallOs name kwargs) = ''junos.install_os''"
| "op_key (FileCopy name dest kwargs) = ''junos.file_copy''"
| "op_key (Lock name) = ''junos.lock''"
| "op_key (Unlock name) = ''junos.unlock''"
| "op_key (Load name kwargs) = ''junos.load''"
| "op_key (CommitCheck name) = ''junos.commit_check''"
| "op_key (GetTable name table file path) = ''junos.get_table''"

text \<open>
  The arguments a call passes to its execution-module function, or the exception raised
  while they are built (only \<^verbatim>\<open>*args\<close> of \<open>rpc\<close> can raise).
\<close>

fun op_arguments :: "op_call \<Rightarrow> exn + pyval list \<times> kwargs" where
  "op_arguments (Rpc name dest format args kwargs) =
     (if args \<noteq> PNone then
        (case unpack args of
           Inl e \<Rightarrow> Inl e
         | Inr xs \<Rightarrow> Inr ([name, dest, format] @ xs, kwargs))
      else Inr ([name, dest, format], kwargs))"
| "op_arguments (SetHostname name kwargs) = Inr ([name], kwargs)"
| "op_arguments (Commit name kwargs) = Inr ([], kwargs)"
| "op_arguments (Rollback name id' kwargs) = Inr ([id'], kwargs)"
| "op_arguments (Diff name d_id) = Inr ([d_id], [])"
| "op_arguments (Cli name format kwargs) = Inr ([name, format], kwargs)"
| "op_arguments (Shutdown name kwargs) = Inr ([], kwargs)"
| "op_arguments (InstallConfig name kwargs) = Inr ([name], kwargs)"
| "op_arguments (Zeroize name) = Inr ([], [])"
| "op_arguments (InstallOs name kwargs) = Inr ([name], kwargs)"
| "op_arguments (FileCopy name dest kwargs) = Inr ([name, dest], kwargs)"
| "op_arguments (Lock name) = Inr ([], [])"
| "op_arguments (Unlock name) = Inr ([], [])"
| "op_arguments (Load name kwargs) = Inr ([name], kwargs)"
| "op_arguments (CommitCheck name) = Inr ([], [])"
| "op_arguments (GetTable name table file path) = Inr ([table, file, path], [])"

section \<open>The session manager behind the dispatch table\<close>

text \<open>
  The execution-module functions \<^verbatim>\<open>junos.lock\<close>, \<^verbatim>\<open>junos.unlock\<close>,
  \<^verbatim>\<open>junos.rollback\<close>, \<^verbatim>\<open>junos.commit\<close> and \<^verbatim>\<open>junos.diff\<close> are not part of
  the state module: it only calls them. The specification describes what they do as a
  transactional session (lock manager, candidate store, commit controller). The
  definitions of this section follow that description; the state functions above are
  then run against them.
\<close>

text \<open>Modelled from the spec: the connection state of a Session
  (Disconnected / Connected / Locked); the session type is not in the state module.\<close>

datatype conn_state = Disconnected | Connected | Locked

text \<open>Modelled from the spec: a configuration, compared line by line by \<open>diff\<close>;
  the configuration lives on the device, outside the state module.\<close>

type_synonym config = "string list"

text \<open>Modelled from the spec: the merge policy of a Candidate Change
  (merge / replace / overwrite), read by the absent \<^verbatim>\<open>junos.load\<close>.\<close>

datatype merge_policy = Merge | Replace | Overwrite

text \<open>Modelled from the spec: the declared format of staged content
  (text, xml, set-commands), read by the absent \<^verbatim>\<open>junos.load\<close>.\<close>

datatype cfg_format = Text | Xml | SetCommands

text \<open>Modelled from the spec: a Candidate Change, one staged configuration delta with
  its content, target format and merge policy; the candidate store is not in the state
  module.\<close>

record candidate_change =
  cc_content :: config
  cc_format :: cfg_format
  cc_policy :: merge_policy

text \<open>Modelled from the spec: a Commit Record with the configuration it made active,
  its comment and its confirm timer in minutes (0: none). The sequence number is the
  position in the history; the timestamp is left out. The commit history is kept by the
  device, outside the state module.\<close>

record commit_record =
  cr_config :: config
  cr_comment :: string
  cr_confirm :: nat

text \<open>Modelled from the spec: the Session with its connection state, the commit history
  (most recent first, index 0 the active configuration) and the staged set; the session
  is held by the absent execution module.\<close>

record session =
  conn :: conn_state
  history :: "commit_record list"
  staged :: "candidate_change list"

text \<open>Modelled from the spec: the points the specification leaves to the implementer or
  to the device, which the absent execution module and the device decide: whether a commit
  with nothing staged is an error or a no-op, how merge and replace combine two
  configurations, and which configurations the device accepts at commit.\<close>

record choices =
  empty_commit_fails :: bool
  merge_into :: "merge_policy \<Rightarrow> config \<Rightarrow> config \<Rightarrow> config"
  device_accepts :: "config \<Rightarrow> bool"

text \<open>Modelled from the spec: the active committed configuration is the one of the
  Commit Record at index 0 (the empty configuration before any commit); it is read by the
  absent \<^verbatim>\<open>junos.diff\<close>.\<close>

definition active_config :: "session \<Rightarrow> config" where
  "active_config s = (case history s of [] \<Rightarrow> [] | r # rs \<Rightarrow> cr_config r)"

text \<open>Modelled from the spec: one staged change applied to a configuration, as the absent
  candidate store does; overwrite replaces it whole, merge and replace are the device's
  \<open>merge_into\<close>.\<close>

definition apply_change :: "choices \<Rightarrow> config \<Rightarrow> candidate_change \<Rightarrow> config" where
  "apply_change P base ch =
     (case cc_policy ch of
        Overwrite \<Rightarrow> cc_content ch
      | Merge \<Rightarrow> merge_into P Merge base (cc_content ch)
      | Replace \<Rightarrow> merge_into P Replace base (cc_content ch))"

text \<open>Modelled from the spec: the candidate configuration of the absent candidate store,
  the active configuration with the staged changes applied in order (later changes over
  earlier ones).\<close>

definition candidate_config :: "choices \<Rightarrow> session \<Rightarrow> config" where
  "candidate_config P s = foldl (apply_change P) (active_config s) (staged s)"

text \<open>Modelled from the spec: a line-level change (added / removed / modified), the
  element of what the absent \<^verbatim>\<open>junos.diff\<close> returns.\<close>

datatype change = Added string | Removed string | Modified string string

text \<open>Modelled from the spec: the ordered sequence of line-level changes between two
  configurations, computed by the absent \<^verbatim>\<open>junos.diff\<close>. The specification fixes the
  kinds of change and that they are ordered; here lines are compared position by
  position.\<close>

fun line_diff :: "config \<Rightarrow> config \<Rightarrow> change list" where
  "line_diff [] ys = map Added ys"
| "line_diff xs [] = map Removed xs"
| "line_diff (x # xs) (y # ys) =
     (if x = y then line_diff xs ys else Modified x y # line_diff xs ys)"

text \<open>Modelled from the spec: \<open>diff()\<close> of the absent candidate store, computed between
  the active committed configuration and the current staged set; a pure read.\<close>

definition session_diff :: "choices \<Rightarrow> session \<Rightarrow> change list" where
  "session_diff P s = line_diff (active_config s) (candidate_config P s)"

text \<open>Modelled from the spec: \<open>acquire\<close> of the absent Lock Manager. It fails with
  AlreadyLockedError if the session is Locked and on success takes Connected to Locked.
  No transition skips a state, so a Disconnected session cannot be locked; the
  specification names no error for that, ConnectionError is used.\<close>

definition acquire :: "session \<Rightarrow> exn + session" where
  "acquire s =
     (if conn s = Locked then Inl AlreadyLockedError
      else if conn s = Connected then Inr (s\<lparr>conn := Locked\<rparr>)
      else Inl ConnectionError)"

text \<open>Modelled from the spec: \<open>release\<close> of the absent Lock Manager. It fails with
  NotLockedError if the session is not Locked and otherwise takes Locked to Connected.\<close>

definition release :: "session \<Rightarrow> exn + session" where
  "release s =
     (if conn s \<noteq> Locked then Inl NotLockedError else Inr (s\<lparr>conn := Connected\<rparr>))"

text \<open>Modelled from the spec: the Commit Record at an index of the history kept by the
  absent Commit Controller, if there is one.\<close>

definition history_at :: "session \<Rightarrow> nat \<Rightarrow> commit_record option" where
  "history_at s i = (if i < length (history s) then Some (history s ! i) else None)"

text \<open>Modelled from the spec: \<open>rollback(index)\<close> of the absent Commit Controller. It
  fails with RollbackError if the index is outside [0,49] or exceeds the history length;
  the bad index is a local error and is checked first. Like every configuration-changing
  operation it fails with NotLockedError outside Locked. Otherwise it loads the historical
  configuration at the index into the candidate set and does not commit. An index equal
  to the history length names no record and fails with RollbackError as well.\<close>

definition rollback_to :: "int \<Rightarrow> session \<Rightarrow> exn + session" where
  "rollback_to i s =
     (if i < 0 \<or> 49 < i \<or> int (length (history s)) < i then Inl RollbackError
      else if conn s \<noteq> Locked then Inl NotLockedError
      else
        (case history_at s (nat i) of
           None \<Rightarrow> Inl RollbackError
         | Some r \<Rightarrow>
             Inr (s\<lparr>staged := staged s @
               [\<lparr>cc_content = cr_config r, cc_format = Text, cc_policy = Overwrite\<rparr>]\<rparr>)))"

text \<open>Modelled from the spec: \<open>commit(comment, confirm_minutes, ...)\<close> of the absent
  Commit Controller. It requires Locked. With nothing staged it fails with CommitError or
  is a no-op that returns no record, as \<open>empty_commit_fails\<close> says. A candidate the
  device rejects fails with CommitError. On success the staged set is cleared and a new
  Commit Record is pushed at index 0, the history bounded at 50 with the oldest
  evicted.\<close>

definition commit_staged ::
  "choices \<Rightarrow> string \<Rightarrow> nat \<Rightarrow> session \<Rightarrow> exn + commit_record option \<times> session" where
  "commit_staged P comment confirm_minutes s =
     (if conn s \<noteq> Locked then Inl NotLockedError
      else if staged s = [] then
        (if empty_commit_fails P then Inl CommitError else Inr (None, s))
      else
        (let c = candidate_config P s;
             r = \<lparr>cr_config = c, cr_comment = comment, cr_confirm = confirm_minutes\<rparr>
         in if \<not> device_accepts P c then Inl CommitError
            else Inr (Some r, s\<lparr>history := take 50 (r # history s), staged := []\<rparr>)))"

text \<open>Modelled from the spec: a line-level change as the structured payload the absent
  \<^verbatim>\<open>junos.diff\<close> hands back.\<close>

fun encode_change :: "change \<Rightarrow> pyval" where
  "encode_change (Added l) = PList [PStr ''added'', PStr l]"
| "encode_change (Removed l) = PList [PStr ''removed'', PStr l]"
| "encode_change (Modified l l') = PList [PStr ''modified'', PStr l, PStr l']"

text \<open>Modelled from the spec: the new Commit Record (index 0) as the payload the absent
  \<^verbatim>\<open>junos.commit\<close> hands back.\<close>

definition encode_record :: "commit_record \<Rightarrow> pyval" where
  "encode_record r =
     PDict [(PStr ''index'', PInt 0), (PStr ''comment'', PStr (cr_comment r)),
            (PStr ''confirm'', PInt (int (cr_confirm r)))]"

text \<open>Modelled from the spec: the absent \<^verbatim>\<open>junos.lock\<close>, called without arguments,
  is \<open>acquire\<close>; a failure is raised and leaves the session as it was.\<close>

fun junos_lock :: "session delegate" where
  "junos_lock [] [] s = (case acquire s of Inl e \<Rightarrow> (Inl e, s) | Inr s' \<Rightarrow> (Inr PNone, s'))"
| "junos_lock pos kw s = (Inl TypeError, s)"

text \<open>Modelled from the spec: the absent \<^verbatim>\<open>junos.unlock\<close>, called without arguments,
  is \<open>release\<close>.\<close>

fun junos_unlock :: "session delegate" where
  "junos_unlock [] [] s = (case release s of Inl e \<Rightarrow> (Inl e, s) | Inr s' \<Rightarrow> (Inr PNone, s'))"
| "junos_unlock pos kw s = (Inl TypeError, s)"

text \<open>Modelled from the spec: the absent \<^verbatim>\<open>junos.rollback\<close>, called with the rollback
  id, is \<open>rollback(index)\<close>.\<close>

fun junos_rollback :: "session delegate" where
  "junos_rollback [PInt i] kw s =
     (case rollback_to i s of Inl e \<Rightarrow> (Inl e, s) | Inr s' \<Rightarrow> (Inr PNone, s'))"
| "junos_rollback pos kw s = (Inl TypeError, s)"

text \<open>Modelled from the spec: the \<open>comment\<close> option the absent \<^verbatim>\<open>junos.commit\<close>
  reads from its keyword arguments (none: the empty comment).\<close>

definition kw_comment :: "kwargs \<Rightarrow> string" where
  "kw_comment kw = (case map_of kw ''comment'' of Some (PStr c) \<Rightarrow> c | _ \<Rightarrow> '''')"

text \<open>Modelled from the spec: the \<open>confirm\<close> option (minutes) the absent
  \<^verbatim>\<open>junos.commit\<close> reads from its keyword arguments (none: no timer).\<close>

definition kw_confirm :: "kwargs \<Rightarrow> nat" where
  "kw_confirm kw = (case map_of kw ''confirm'' of Some (PInt n) \<Rightarrow> nat n | _ \<Rightarrow> 0)"

text \<open>Modelled from the spec: the absent \<^verbatim>\<open>junos.commit\<close>, called with keyword
  arguments only, is \<open>commit\<close>; it hands back the new Commit Record, or \<open>None\<close> for
  the no-op.\<close>

fun junos_commit :: "choices \<Rightarrow> session delegate" where
  "junos_commit P [] kw s =
     (case commit_staged P (kw_comment kw) (kw_confirm kw) s of
        Inl e \<Rightarrow> (Inl e, s)
      | Inr (None, s') \<Rightarrow> (Inr PNone, s')
      | Inr (Some r, s') \<Rightarrow> (Inr (encode_record r), s'))"
| "junos_commit P pos kw s = (Inl TypeError, s)"

text \<open>Modelled from the spec: the absent \<^verbatim>\<open>junos.diff\<close>. The state function hands it
  one argument, \<^verbatim>\<open>d_id\<close>; the specification's \<open>diff()\<close> has no index and compares the
  active configuration with the staged set, so the argument is not read.\<close>

fun junos_diff :: "choices \<Rightarrow> session delegate" where
  "junos_diff P [d_id] [] s = (Inr (PList (map encode_change (session_diff P s))), s)"
| "junos_diff P pos kw s = (Inl TypeError, s)"

text \<open>Modelled from the spec: the dispatch table \<^verbatim>\<open>__salt__\<close> holding the five absent
  execution-module functions above.\<close>

definition session_salt :: "choices \<Rightarrow> session salt_table" where
  "session_salt P =
     map_of [(''junos.lock'', junos_lock), (''junos.unlock'', junos_unlock),
             (''junos.rollback'', junos_rollback), (''junos.commit'', junos_commit P),
             (''junos.diff'', junos_diff P)]"

text \<open>
  A sequence of \<open>lock\<close> and \<open>unlock\<close> calls of the state module on one session, and the
  transitions it goes through: the session before, the call, its outcome, the session
  after. A call that raises does not end the sequence.
\<close>

datatype lock_op = Acquire | Release

fun lock_step ::
  "choices \<Rightarrow> pyval \<Rightarrow> lock_op \<Rightarrow> session world \<Rightarrow> (exn + ret) \<times> session world" where
  "lock_step P name Acquire w = lock (session_salt P) name w"
| "lock_step P name Release w = unlock (session_salt P) name w"

fun lock_run ::
  "choices \<Rightarrow> pyval \<Rightarrow> lock_op list \<Rightarrow> session world \<Rightarrow>
   (session \<times> lock_op \<times> (exn + ret) \<times> session) list" where
  "lock_run P name [] w = []"
| "lock_run P name (x # xs) w =
     (case lock_step P name x w of
        (out, w') \<Rightarrow> (dev w, x, out, dev w') # lock_run P name xs w')"

section \<open>Sample delegates, sessions and accessors\<close>

text \<open>An execution-module function that returns \<open>v\<close>, one that raises \<open>e\<close>.\<close>

definition returning :: "pyval \<Rightarrow> 'd delegate" where
  "returning v pos kw d = (Inr v, d)"

definition raising :: "exn \<Rightarrow> 'd delegate" where
  "raising e pos kw d = (Inl e, d)"

text \<open>A field of the dictionary an outcome carries, if it carries one.\<close>

definition field :: "string \<Rightarrow> (exn + ret) \<times> 'd world \<Rightarrow> pyval option" where
  "field k out = (case fst out of Inl e \<Rightarrow> None | Inr r \<Rightarrow> r k)"

text \<open>A device that appends merged content, accepts every configuration and rejects a
  commit with nothing staged.\<close>

definition append_merge :: "merge_policy \<Rightarrow> config \<Rightarrow> config \<Rightarrow> config" where
  "append_merge p base c = base @ c"

definition accept_all :: "config \<Rightarrow> bool" where
  "accept_all c = True"

definition strict :: choices where
  "strict = \<lparr>empty_commit_fails = True, merge_into = append_merge, device_accepts = accept_all\<rparr>"

text \<open>A session with two commits in its history and nothing staged.\<close>

definition two_commits :: "conn_state \<Rightarrow> session" where
  "two_commits c =
     \<lparr>conn = c,
      history =
        [\<lparr>cr_config = [''set system host-name R2''], cr_comment = ''second'', cr_confirm = 0\<rparr>,
         \<lparr>cr_config = [''set system host-name R1''], cr_comment = ''first'', cr_confirm = 0\<rparr>],
      staged = []\<rparr>"

definition at_start :: "'d \<Rightarrow> 'd world" where
  "at_start d = \<lparr>calls = [], dev = d\<rparr>"

section \<open>Properties of the state functions\<close>

lemmas op_defs =
  rpc_def set_hostname_def commit_def rollback_def diff_def cli_def shutdown_def
  install_config_def zeroize_def install_os_def file_copy_def lock_def unlock_def
  load_def commit_check_def get_table_def

text \<open>Every state function has the same shape: subscript, build the arguments, call, store.\<close>

lemma run_op_eq:
  "run_op salt c w =
     (case lookup salt (op_key c) of
        Inl e \<Rightarrow> (Inl e, w)
      | Inr f \<Rightarrow>
          (case op_arguments c of
             Inl e \<Rightarrow> (Inl e, w)
           | Inr (pos, kw) \<Rightarrow> store_changes (new_ret (op_name c)) (invoke (op_key c) f pos kw w)))"
  by (cases c) (simp_all add: op_defs delegate_to_def split: sum.splits)

text \<open>The four ways a call can go.\<close>

lemma run_op_cases:
  obtains
    (missing) "salt (op_key c) = None" "run_op salt c w = (Inl (KeyError (op_key c)), w)"
  | (bad_arguments) f e where "salt (op_key c) = Some f" "op_arguments c = Inl e"
      "run_op salt c w = (Inl e, w)"
  | (raises) f pos kw e d' where "salt (op_key c) = Some f" "op_arguments c = Inr (pos, kw)"
      "f pos kw (dev w) = (Inl e, d')"
      "run_op salt c w = (Inl e, \<lparr>calls = calls w @ [(op_key c, pos, kw)], dev = d'\<rparr>)"
  | (returns) f pos kw v d' where "salt (op_key c) = Some f" "op_arguments c = Inr (pos, kw)"
      "f pos kw (dev w) = (Inr v, d')"
      "run_op salt c w =
         (Inr ((new_ret (op_name c))(''changes'' \<mapsto> v)),
          \<lparr>calls = calls w @ [(op_key c, pos, kw)], dev = d'\<rparr>)"
proof (cases "salt (op_key c)")
  case None
  have "run_op salt c w = (Inl (KeyError (op_key c)), w)"
    using None by (simp add: run_op_eq lookup_def)
  with None show ?thesis by (rule missing)
next
  case (Some f)
  show ?thesis
  proof (cases "op_arguments c")
    case (Inl e)
    have "run_op salt c w = (Inl e, w)"
      using Some Inl by (simp add: run_op_eq lookup_def)
    with Some Inl show ?thesis by (rule bad_arguments)
  next
    case (Inr pk)
    obtain pos kw where pk: "pk = (pos, kw)" by (cases pk)
    have args: "op_arguments c = Inr (pos, kw)" using Inr pk by simp
    obtain out d' where o: "f pos kw (dev w) = (out, d')" by (cases "f pos kw (dev w)")
    show ?thesis
    proof (cases out)
      case (Inl e)
      have call: "f pos kw (dev w) = (Inl e, d')" using o Inl by simp
      have "run_op salt c w = (Inl e, \<lparr>calls = calls w @ [(op_key c, pos, kw)], dev = d'\<rparr>)"
        using Some args call by (simp add: run_op_eq lookup_def invoke_def store_changes_def)
      with Some args call show ?thesis by (rule raises)
    next
      case (Inr v)
      have call: "f pos kw (dev w) = (Inr v, d')" using o Inr by simp
      have "run_op salt c w =
         (Inr ((new_ret (op_name c))(''changes'' \<mapsto> v)),
          \<lparr>calls = calls w @ [(op_key c, pos, kw)], dev = d'\<rparr>)"
        using Some args call by (simp add: run_op_eq lookup_def invoke_def store_changes_def)
      with Some args call show ?thesis by (rule returns)
    qed
  qed
qed

lemma dom_new_ret: "dom (new_ret n) = {''name'', ''changes'', ''result'', ''comment''}"
  by (auto simp: new_ret_def split: if_splits)

subsection \<open>The result dictionary\<close>

text \<open>
  Claim C1, as amended. Every call of a public function either raises or returns the
  dictionary. It raises exactly when the table lookup, the unpacking of \<^verbatim>\<open>*args\<close> or
  the execution-module function raises, with that exception. When it returns, the
  execution-module function returned a value \<open>v\<close>, which is stored under
  \<^verbatim>\<open>'changes'\<close>, and \<^verbatim>\<open>'result'\<close> is \<open>True\<close> and \<^verbatim>\<open>'comment'\<close> is the empty
  string whatever \<open>v\<close> is: the two fields are constants and say nothing about what the
  delegated operation reported.
\<close>

theorem result_and_comment_constant:
  assumes "run_op salt c w = (out, w')"
  shows "(\<forall>r. out = Inr r \<longrightarrow>
            r ''result'' = Some (PBool True) \<and> r ''comment'' = Some (PStr '''') \<and>
            (\<exists>f pos kw v. salt (op_key c) = Some f \<and> op_arguments c = Inr (pos, kw) \<and>
               f pos kw (dev w) = (Inr v, dev w') \<and> r ''changes'' = Some v)) \<and>
         (\<forall>e. out = Inl e \<longrightarrow>
            lookup salt (op_key c) = Inl e \<or> op_arguments c = Inl e \<or>
            (\<exists>f pos kw. salt (op_key c) = Some f \<and> op_arguments c = Inr (pos, kw) \<and>
               f pos kw (dev w) = (Inl e, dev w')))"
proof (cases salt c w rule: run_op_cases)
  case missing
  with assms show ?thesis by (auto simp: lookup_def)
next
  case (bad_arguments f e)
  with assms show ?thesis by auto
next
  case (raises f pos kw e d')
  with assms have "out = Inl e" "dev w' = d'" by auto
  with raises show ?thesis by blast
next
  case (returns f pos kw v d')
  with assms have o: "out = Inr ((new_ret (op_name c))(''changes'' \<mapsto> v))" and d: "dev w' = d'"
    by auto
  have "\<exists>f pos kw v'. salt (op_key c) = Some f \<and> op_arguments c = Inr (pos, kw) \<and>
      f pos kw (dev w) = (Inr v', dev w') \<and>
      ((new_ret (op_name c))(''changes'' \<mapsto> v)) ''changes'' = Some v'"
    using returns d by auto
  then show ?thesis unfolding o by (simp add: new_ret_def)
qed

theorem result_and_comment_constant_witness:
  "run_op (map_of [(''junos.commit_check'', returning (PBool False))]) (CommitCheck (PStr ''check''))
      \<lparr>calls = [], dev = ()\<rparr> =
     (Inr ((new_ret (PStr ''check''))(''changes'' \<mapsto> PBool False)),
      \<lparr>calls = [(''junos.commit_check'', [], [])], dev = ()\<rparr>) \<and>
   ((new_ret (PStr ''check''))(''changes'' \<mapsto> PBool False)) ''result'' = Some (PBool True) \<and>
   ((new_ret (PStr ''check''))(''changes'' \<mapsto> PBool False)) ''comment'' = Some (PStr '''')"
proof -
  have h: "run_op (map_of [(''junos.commit_check'', returning (PBool False))])
      (CommitCheck (PStr ''check'')) \<lparr>calls = [], dev = ()\<rparr> =
     (Inr ((new_ret (PStr ''check''))(''changes'' \<mapsto> PBool False)),
      \<lparr>calls = [(''junos.commit_check'', [], [])], dev = ()\<rparr>)"
    by (simp add: commit_check_def delegate_to_def lookup_def invoke_def store_changes_def
        returning_def)
  show ?thesis using result_and_comment_constant [OF h] h by simp
qed

text \<open>
  Claim C1 as stated fails: \<^verbatim>\<open>commit_check\<close> run against a delegate that answers
  \<open>False\<close> (the staged set does not validate) and against one that answers \<open>True\<close>
  returns the same \<^verbatim>\<open>'result'\<close> (\<open>True\<close>) and the same \<^verbatim>\<open>'comment'\<close> (empty); only
  \<^verbatim>\<open>'changes'\<close> differs.
\<close>

theorem result_ignores_delegate_outcome:
  "field ''changes'' (commit_check (map_of [(''junos.commit_check'', returning (PBool False))])
      (PStr ''check'') \<lparr>calls = [], dev = ()\<rparr>) = Some (PBool False) \<and>
   field ''result'' (commit_check (map_of [(''junos.commit_check'', returning (PBool False))])
      (PStr ''check'') \<lparr>calls = [], dev = ()\<rparr>) = Some (PBool True) \<and>
   field ''comment'' (commit_check (map_of [(''junos.commit_check'', returning (PBool False))])
      (PStr ''check'') \<lparr>calls = [], dev = ()\<rparr>) = Some (PStr '''') \<and>
   field ''changes'' (commit_check (map_of [(''junos.commit_check'', returning (PBool True))])
      (PStr ''check'') \<lparr>calls = [], dev = ()\<rparr>) = Some (PBool True) \<and>
   field ''result'' (commit_check (map_of [(''junos.commit_check'', returning (PBool True))])
      (PStr ''check'') \<lparr>calls = [], dev = ()\<rparr>) = Some (PBool True) \<and>
   field ''comment'' (commit_check (map_of [(''junos.commit_check'', returning (PBool True))])
      (PStr ''check'') \<lparr>calls = [], dev = ()\<rparr>) = Some (PStr '''')"
  by (simp add: field_def commit_check_def delegate_to_def lookup_def invoke_def
      store_changes_def returning_def new_ret_def)

text \<open>
  Claim C2. Whenever a public function returns, the dictionary has exactly the keys
  \<^verbatim>\<open>name\<close>, \<^verbatim>\<open>changes\<close>, \<^verbatim>\<open>result\<close> and \<^verbatim>\<open>comment\<close>; \<^verbatim>\<open>name\<close> is the caller's
  name, \<^verbatim>\<open>result\<close> is a boolean, \<^verbatim>\<open>comment\<close> is a string, and \<^verbatim>\<open>changes\<close> is the
  value the execution-module function returned for the arguments the call passed it.
\<close>

theorem uniform_record:
  assumes "run_op salt c w = (Inr r, w')"
  shows "dom r = {''name'', ''changes'', ''result'', ''comment''} \<and>
         r ''name'' = Some (op_name c) \<and>
         (\<exists>b. r ''result'' = Some (PBool b)) \<and>
         (\<exists>s. r ''comment'' = Some (PStr s)) \<and>
         (\<exists>f pos kw v. salt (op_key c) = Some f \<and> op_arguments c = Inr (pos, kw) \<and>
            f pos kw (dev w) = (Inr v, dev w') \<and> r ''changes'' = Some v)"
proof (cases salt c w rule: run_op_cases)
  case (returns f pos kw v d')
  with assms have r: "r = (new_ret (op_name c))(''changes'' \<mapsto> v)" and w': "dev w' = d'"
    by auto
  have "dom r = {''name'', ''changes'', ''result'', ''comment''}"
    unfolding r by (auto simp: dom_new_ret)
  moreover have "r ''name'' = Some (op_name c)" "r ''result'' = Some (PBool True)"
    "r ''comment'' = Some (PStr '''')" "r ''changes'' = Some v"
    unfolding r by (simp_all add: new_ret_def)
  ultimately show ?thesis using returns w' by blast
qed (use assms in auto)

theorem uniform_record_witness:
  "run_op (map_of [(''junos.zeroize'', returning (PStr ''ok''))]) (Zeroize (PStr ''reset''))
      \<lparr>calls = [], dev = ()\<rparr> =
     (Inr ((new_ret (PStr ''reset''))(''changes'' \<mapsto> PStr ''ok'')),
      \<lparr>calls = [(''junos.zeroize'', [], [])], dev = ()\<rparr>) \<and>
   dom ((new_ret (PStr ''reset''))(''changes'' \<mapsto> PStr ''ok'')) =
     {''name'', ''changes'', ''result'', ''comment''} \<and>
   ((new_ret (PStr ''reset''))(''changes'' \<mapsto> PStr ''ok'')) ''name'' = Some (PStr ''reset'')"
proof -
  have h: "run_op (map_of [(''junos.zeroize'', returning (PStr ''ok''))]) (Zeroize (PStr ''reset''))
      \<lparr>calls = [], dev = ()\<rparr> =
     (Inr ((new_ret (PStr ''reset''))(''changes'' \<mapsto> PStr ''ok'')),
      \<lparr>calls = [(''junos.zeroize'', [], [])], dev = ()\<rparr>)"
    by (simp add: zeroize_def delegate_to_def lookup_def invoke_def store_changes_def
        returning_def)
  show ?thesis using uniform_record [OF h] h by simp
qed

subsection \<open>Calls through the dispatch table\<close>

text \<open>
  Claim C8, as amended. A call of a public function invokes its execution-module function
  at most once, with no retry and no repair. If the function is in the table and the
  arguments can be built, it is invoked exactly once and the device is left as that one
  invocation left it. Otherwise the call raises before any invocation: the log and the
  device are unchanged.
\<close>

theorem delegate_invoked_at_most_once:
  assumes "run_op salt c w = (out, w')"
  shows "(case (salt (op_key c), op_arguments c) of
            (Some f, Inr (pos, kw)) \<Rightarrow>
              calls w' = calls w @ [(op_key c, pos, kw)] \<and> dev w' = snd (f pos kw (dev w))
          | _ \<Rightarrow> calls w' = calls w \<and> dev w' = dev w \<and> (\<exists>e. out = Inl e))"
proof (cases salt c w rule: run_op_cases)
  case missing
  with assms show ?thesis by auto
next
  case (bad_arguments f e)
  with assms show ?thesis by auto
next
  case (raises f pos kw e d')
  with assms show ?thesis by auto
next
  case (returns f pos kw v d')
  with assms show ?thesis by auto
qed

theorem delegate_invoked_at_most_once_witness:
  "run_op (map_of [(''junos.shutdown'', returning (PStr ''ok''))])
      (Shutdown (PStr ''halt'') [(''in_min'', PInt 10)]) \<lparr>calls = [], dev = ()\<rparr> =
     (Inr ((new_ret (PStr ''halt''))(''changes'' \<mapsto> PStr ''ok'')),
      \<lparr>calls = [(''junos.shutdown'', [], [(''in_min'', PInt 10)])], dev = ()\<rparr>) \<and>
   calls \<lparr>calls = [(''junos.shutdown'', [], [(''in_min'', PInt 10)])], dev = ()\<rparr> =
     calls \<lparr>calls = [], dev = ()\<rparr> @ [(''junos.shutdown'', [], [(''in_min'', PInt 10)])]"
proof -
  have h: "run_op (map_of [(''junos.shutdown'', returning (PStr ''ok''))])
      (Shutdown (PStr ''halt'') [(''in_min'', PInt 10)]) \<lparr>calls = [], dev = ()\<rparr> =
     (Inr ((new_ret (PStr ''halt''))(''changes'' \<mapsto> PStr ''ok'')),
      \<lparr>calls = [(''junos.shutdown'', [], [(''in_min'', PInt 10)])], dev = ()\<rparr>)"
    by (simp add: shutdown_def delegate_to_def lookup_def invoke_def store_changes_def
        returning_def)
  show ?thesis using delegate_invoked_at_most_once [OF h] h by simp
qed

text \<open>
  Claim C8 as stated fails: \<^verbatim>\<open>rpc\<close> called with \<^verbatim>\<open>args=5\<close> raises TypeError when
  \<^verbatim>\<open>*args\<close> is unpacked. The function \<^verbatim>\<open>junos.rpc\<close> is in the table and is not
  invoked: the log of calls stays empty.
\<close>

theorem rpc_bad_args_never_invokes:
  "rpc (map_of [(''junos.rpc'', returning (PStr ''reply''))]) (PStr ''get-interface-information'')
      PNone (PStr ''xml'') (PInt 5) [] \<lparr>calls = [], dev = ()\<rparr> =
     (Inl TypeError, \<lparr>calls = [], dev = ()\<rparr>)"
  by (simp add: rpc_def lookup_def)

text \<open>
  Claim C9. No public function handles an exception: if the execution-module function,
  called with the arguments the public function passes, raises \<open>e\<close>, the public function
  raises \<open>e\<close>, unchanged, and returns no dictionary; the device is as the raising call
  left it.
\<close>

theorem delegate_exception_propagates:
  assumes "salt (op_key c) = Some f" and "op_arguments c = Inr (pos, kw)"
    and "f pos kw (dev w) = (Inl e, d')"
  shows "run_op salt c w = (Inl e, \<lparr>calls = calls w @ [(op_key c, pos, kw)], dev = d'\<rparr>)"
  using assms by (simp add: run_op_eq lookup_def invoke_def store_changes_def)

theorem delegate_exception_propagates_witness:
  "map_of [(''junos.zeroize'', raising (DelegateError ''rpc timeout''))]
      (op_key (Zeroize (PStr ''reset''))) =
     Some (raising (DelegateError ''rpc timeout'') :: unit delegate) \<and>
   op_arguments (Zeroize (PStr ''reset'')) = Inr ([], []) \<and>
   raising (DelegateError ''rpc timeout'') [] [] (dev \<lparr>calls = [], dev = ()\<rparr>) =
     (Inl (DelegateError ''rpc timeout''), ()) \<and>
   run_op (map_of [(''junos.zeroize'', raising (DelegateError ''rpc timeout''))])
     (Zeroize (PStr ''reset'')) \<lparr>calls = [], dev = ()\<rparr> =
     (Inl (DelegateError ''rpc timeout''), \<lparr>calls = [(''junos.zeroize'', [], [])], dev = ()\<rparr>)"
proof -
  have a: "map_of [(''junos.zeroize'', raising (DelegateError ''rpc timeout''))]
      (op_key (Zeroize (PStr ''reset''))) =
      Some (raising (DelegateError ''rpc timeout'') :: unit delegate)"
    by simp
  have b: "op_arguments (Zeroize (PStr ''reset'')) = Inr ([], [])" by simp
  have c: "raising (DelegateError ''rpc timeout'') [] [] (dev \<lparr>calls = [], dev = ()\<rparr>) =
     (Inl (DelegateError ''rpc timeout''), ())"
    by (simp add: raising_def)
  show ?thesis
    using delegate_exception_propagates
      [where salt = "map_of [(''junos.zeroize'', raising (DelegateError ''rpc timeout''))]"
         and c = "Zeroize (PStr ''reset'')" and w = "\<lparr>calls = [], dev = ()\<rparr>", OF a b c] a b c
    by simp
qed

text \<open>
  Claim C10. \<^verbatim>\<open>rpc\<close> called with \<^verbatim>\<open>args=[]\<close> and \<^verbatim>\<open>rpc\<close> called with
  \<^verbatim>\<open>args=None\<close> have the same outcome, dictionary and device alike, for every name,
  dest, format, keyword arguments, dispatch table and starting state: both branches pass
  \<^verbatim>\<open>junos.rpc\<close> the same arguments.
\<close>

theorem rpc_empty_args_eq_none:
  "rpc salt name dest format (PList []) kwargs w = rpc salt name dest format PNone kwargs w"
  by (simp add: rpc_def delegate_to_def split: sum.splits)

section \<open>Properties of the state functions over the session manager\<close>

lemma lock_eq:
  "lock (session_salt P) name w =
     (case acquire (dev w) of
        Inl e \<Rightarrow> (Inl e, \<lparr>calls = calls w @ [(''junos.lock'', [], [])], dev = dev w\<rparr>)
      | Inr s' \<Rightarrow> (Inr ((new_ret name)(''changes'' \<mapsto> PNone)),
                   \<lparr>calls = calls w @ [(''junos.lock'', [], [])], dev = s'\<rparr>))"
  by (simp add: lock_def delegate_to_def lookup_def session_salt_def invoke_def
      store_changes_def split: sum.splits)

lemma unlock_eq:
  "unlock (session_salt P) name w =
     (case release (dev w) of
        Inl e \<Rightarrow> (Inl e, \<lparr>calls = calls w @ [(''junos.unlock'', [], [])], dev = dev w\<rparr>)
      | Inr s' \<Rightarrow> (Inr ((new_ret name)(''changes'' \<mapsto> PNone)),
                   \<lparr>calls = calls w @ [(''junos.unlock'', [], [])], dev = s'\<rparr>))"
  by (simp add: unlock_def delegate_to_def lookup_def session_salt_def invoke_def
      store_changes_def split: sum.splits)

lemma rollback_eq:
  "rollback (session_salt P) name (PInt i) kw w =
     (case rollback_to i (dev w) of
        Inl e \<Rightarrow> (Inl e, \<lparr>calls = calls w @ [(''junos.rollback'', [PInt i], kw)], dev = dev w\<rparr>)
      | Inr s' \<Rightarrow> (Inr ((new_ret name)(''changes'' \<mapsto> PNone)),
                   \<lparr>calls = calls w @ [(''junos.rollback'', [PInt i], kw)], dev = s'\<rparr>))"
  by (simp add: rollback_def delegate_to_def lookup_def session_salt_def invoke_def
      store_changes_def split: sum.splits)

lemma commit_eq:
  "commit (session_salt P) name kw w =
     (case commit_staged P (kw_comment kw) (kw_confirm kw) (dev w) of
        Inl e \<Rightarrow> (Inl e, \<lparr>calls = calls w @ [(''junos.commit'', [], kw)], dev = dev w\<rparr>)
      | Inr (None, s') \<Rightarrow> (Inr ((new_ret name)(''changes'' \<mapsto> PNone)),
                   \<lparr>calls = calls w @ [(''junos.commit'', [], kw)], dev = s'\<rparr>)
      | Inr (Some r, s') \<Rightarrow> (Inr ((new_ret name)(''changes'' \<mapsto> encode_record r)),
                   \<lparr>calls = calls w @ [(''junos.commit'', [], kw)], dev = s'\<rparr>))"
  by (simp add: commit_def delegate_to_def lookup_def session_salt_def invoke_def
      store_changes_def split: sum.splits option.splits)

lemma diff_eq:
  "diff (session_salt P) name d_id w =
     (Inr ((new_ret name)(''changes'' \<mapsto> PList (map encode_change (session_diff P (dev w))))),
      \<lparr>calls = calls w @ [(''junos.diff'', [d_id], [])], dev = dev w\<rparr>)"
  by (simp add: diff_def delegate_to_def lookup_def session_salt_def invoke_def
      store_changes_def)

lemma line_diff_same: "line_diff c c = []"
  by (induction c) simp_all

lemma line_diff_empty_iff: "line_diff a b = [] \<longleftrightarrow> a = b"
  by (induction a b rule: line_diff.induct) auto

subsection \<open>Locking\<close>

lemma lock_step_cases:
  "lock_step P name x w = (out, w') \<Longrightarrow>
     (x = Acquire \<and> conn (dev w) = Locked \<longrightarrow> out = Inl AlreadyLockedError \<and> dev w' = dev w) \<and>
     (x = Release \<and> conn (dev w) \<noteq> Locked \<longrightarrow> out = Inl NotLockedError \<and> dev w' = dev w) \<and>
     ((dev w' = dev w \<and> (\<exists>e. out = Inl e)) \<or>
      (x = Acquire \<and> conn (dev w) = Connected \<and> dev w' = (dev w)\<lparr>conn := Locked\<rparr> \<and>
         (\<exists>r. out = Inr r)) \<or>
      (x = Release \<and> conn (dev w) = Locked \<and> dev w' = (dev w)\<lparr>conn := Connected\<rparr> \<and>
         (\<exists>r. out = Inr r)))"
  by (cases x) (auto simp: lock_eq unlock_eq acquire_def release_def split: if_splits)

text \<open>
  Claim C3. In every sequence of \<^verbatim>\<open>lock\<close> and \<^verbatim>\<open>unlock\<close> calls on one session, every
  transition \<open>(s, x, out, s')\<close> is a valid one. A \<^verbatim>\<open>lock\<close> on a Locked session raises
  AlreadyLockedError and leaves the session, the lock included, as it was; an
  \<^verbatim>\<open>unlock\<close> on a session that is not Locked raises NotLockedError and leaves it as it
  was. The only changes of state are Connected to Locked by a \<^verbatim>\<open>lock\<close> that returns and
  Locked to Connected by an \<^verbatim>\<open>unlock\<close> that returns; every other call raises and
  changes nothing.
\<close>

theorem lock_state_machine:
  assumes "(s, x, out, s') \<in> set (lock_run P name ops w)"
  shows "(x = Acquire \<and> conn s = Locked \<longrightarrow> out = Inl AlreadyLockedError \<and> s' = s) \<and>
         (x = Release \<and> conn s \<noteq> Locked \<longrightarrow> out = Inl NotLockedError \<and> s' = s) \<and>
         ((s' = s \<and> (\<exists>e. out = Inl e)) \<or>
          (x = Acquire \<and> conn s = Connected \<and> s' = s\<lparr>conn := Locked\<rparr> \<and> (\<exists>r. out = Inr r)) \<or>
          (x = Release \<and> conn s = Locked \<and> s' = s\<lparr>conn := Connected\<rparr> \<and> (\<exists>r. out = Inr r)))"
  using assms
proof (induction ops arbitrary: w)
  case Nil
  then show ?case by simp
next
  case (Cons y ys)
  obtain o1 w1 where step: "lock_step P name y w = (o1, w1)"
    by (cases "lock_step P name y w")
  from Cons.prems step
  consider (head) "s = dev w" "x = y" "out = o1" "s' = dev w1"
    | (tail) "(s, x, out, s') \<in> set (lock_run P name ys w1)"
    by auto
  then show ?case
  proof cases
    case head
    with lock_step_cases [OF step] show ?thesis by simp
  next
    case tail
    then show ?thesis by (rule Cons.IH)
  qed
qed

theorem lock_state_machine_witness:
  "(two_commits Locked, Acquire, Inl AlreadyLockedError, two_commits Locked)
     \<in> set (lock_run strict (PStr ''lock the config'') [Acquire, Acquire, Release, Release]
         (at_start (two_commits Connected))) \<and>
   (two_commits Connected, Release, Inl NotLockedError, two_commits Connected)
     \<in> set (lock_run strict (PStr ''lock the config'') [Acquire, Acquire, Release, Release]
         (at_start (two_commits Connected))) \<and>
   conn (two_commits Locked) = Locked"
proof -
  have run: "lock_run strict (PStr ''lock the config'') [Acquire, Acquire, Release, Release]
      (at_start (two_commits Connected)) =
     [(two_commits Connected, Acquire,
         Inr ((new_ret (PStr ''lock the config''))(''changes'' \<mapsto> PNone)), two_commits Locked),
      (two_commits Locked, Acquire, Inl AlreadyLockedError, two_commits Locked),
      (two_commits Locked, Release,
         Inr ((new_ret (PStr ''lock the config''))(''changes'' \<mapsto> PNone)), two_commits Connected),
      (two_commits Connected, Release, Inl NotLockedError, two_commits Connected)]"
    by (simp add: lock_eq unlock_eq acquire_def release_def at_start_def two_commits_def)
  have h: "(two_commits Locked, Acquire, Inl AlreadyLockedError, two_commits Locked)
     \<in> set (lock_run strict (PStr ''lock the config'') [Acquire, Acquire, Release, Release]
         (at_start (two_commits Connected)))"
    unfolding run by simp
  have h': "(two_commits Connected, Release, Inl NotLockedError, two_commits Connected)
     \<in> set (lock_run strict (PStr ''lock the config'') [Acquire, Acquire, Release, Release]
         (at_start (two_commits Connected)))"
    unfolding run by simp
  show ?thesis using lock_state_machine [OF h] h h' by (simp add: two_commits_def)
qed

subsection \<open>Rollback, commit and diff\<close>

text \<open>
  Claim C4. \<^verbatim>\<open>rollback\<close> called with an index outside [0,49], or with an index greater
  than the length of the commit history, raises RollbackError, in every session state;
  the session is unchanged.
\<close>

theorem rollback_bad_index:
  assumes "i < 0 \<or> 49 < i \<or> int (length (history (dev w))) < i"
  shows "rollback (session_salt P) name (PInt i) kw w =
           (Inl RollbackError,
            \<lparr>calls = calls w @ [(''junos.rollback'', [PInt i], kw)], dev = dev w\<rparr>)"
  using assms by (simp add: rollback_eq rollback_to_def)

theorem rollback_bad_index_witness:
  "((50::int) < 0 \<or> (49::int) < 50 \<or>
      int (length (history (dev (at_start (two_commits Locked))))) < 50) \<and>
   rollback (session_salt strict) (PStr ''rollback the changes'') (PInt 50) []
       (at_start (two_commits Locked)) =
     (Inl RollbackError,
      \<lparr>calls = [(''junos.rollback'', [PInt 50], [])], dev = two_commits Locked\<rparr>)"
proof -
  have h: "(50::int) < 0 \<or> (49::int) < 50 \<or>
      int (length (history (dev (at_start (two_commits Locked))))) < 50"
    by simp
  show ?thesis
    using rollback_bad_index [OF h, of strict "PStr ''rollback the changes''" "[]"] h
    by (simp add: at_start_def)
qed

text \<open>
  Claim C5. \<^verbatim>\<open>commit\<close> called with nothing staged has a determined outcome:
  NotLockedError outside Locked, otherwise CommitError where an empty commit is an error
  and a dictionary with no record where it is a no-op. In each case the session, and with
  it the commit history, is unchanged: no Commit Record is created.
\<close>

theorem commit_nothing_staged:
  assumes "staged (dev w) = []" and "commit (session_salt P) name kw w = (out, w')"
  shows "dev w' = dev w \<and> history (dev w') = history (dev w) \<and>
         out = (if conn (dev w) \<noteq> Locked then Inl NotLockedError
                else if empty_commit_fails P then Inl CommitError
                else Inr ((new_ret name)(''changes'' \<mapsto> PNone)))"
  using assms by (auto simp: commit_eq commit_staged_def split: if_splits)

theorem commit_nothing_staged_witness:
  "staged (dev (at_start (two_commits Locked))) = [] \<and>
   commit (session_salt strict) (PStr ''commit the changes'') [] (at_start (two_commits Locked)) =
     (Inl CommitError, \<lparr>calls = [(''junos.commit'', [], [])], dev = two_commits Locked\<rparr>) \<and>
   history (dev \<lparr>calls = [(''junos.commit'', [], [])], dev = two_commits Locked\<rparr>) =
     history (dev (at_start (two_commits Locked)))"
proof -
  have a: "staged (dev (at_start (two_commits Locked))) = []"
    by (simp add: at_start_def two_commits_def)
  have b: "commit (session_salt strict) (PStr ''commit the changes'') []
       (at_start (two_commits Locked)) =
     (Inl CommitError, \<lparr>calls = [(''junos.commit'', [], [])], dev = two_commits Locked\<rparr>)"
    by (simp add: commit_eq commit_staged_def at_start_def two_commits_def strict_def)
  show ?thesis using commit_nothing_staged [OF a b] a b by (simp add: at_start_def)
qed

text \<open>
  Claim C6. \<^verbatim>\<open>diff\<close> is a pure read. For every name, every \<^verbatim>\<open>d_id\<close> and every
  session, whatever its connection state, it returns the dictionary whose
  \<^verbatim>\<open>'changes'\<close> is the ordered sequence of line-level changes between the active
  committed configuration and the candidate the staged set gives, and it leaves the
  session (connection state, history, staged set) as it was.
\<close>

theorem diff_pure_read:
  "diff (session_salt P) name d_id w =
     (Inr ((new_ret name)(''changes'' \<mapsto>
        PList (map encode_change
          (line_diff (active_config (dev w)) (candidate_config P (dev w)))))),
      \<lparr>calls = calls w @ [(''junos.diff'', [d_id], [])], dev = dev w\<rparr>)"
  by (simp add: diff_def delegate_to_def lookup_def session_salt_def invoke_def
      store_changes_def session_diff_def)

lemma candidate_after_overwrite:
  "candidate_config P (s\<lparr>staged := staged s @
      [\<lparr>cc_content = c, cc_format = f, cc_policy = Overwrite\<rparr>]\<rparr>) = c"
  by (simp add: candidate_config_def apply_change_def)

lemma rollback_to_valid:
  assumes "conn s = Locked" "0 \<le> i" "i \<le> 49" "nat i < length (history s)"
  shows "rollback_to i s = Inr (s\<lparr>staged := staged s @
      [\<lparr>cc_content = cr_config (history s ! nat i), cc_format = Text, cc_policy = Overwrite\<rparr>]\<rparr>)"
  using assms by (auto simp: rollback_to_def history_at_def)

text \<open>
  Claim C7. For a valid history index \<open>i\<close> of a Locked session whose device accepts the
  configuration recorded there, \<^verbatim>\<open>rollback\<close> with \<open>i\<close> followed by \<^verbatim>\<open>commit\<close> both
  return, and in the state they reach the active configuration is the one recorded at
  index \<open>i\<close>, nothing is staged, the line-level difference between the configuration
  recorded at index \<open>i\<close> and the candidate is empty, and \<^verbatim>\<open>diff\<close> returns the empty
  sequence.
\<close>

theorem rollback_commit_round_trip:
  assumes locked: "conn (dev w) = Locked"
    and idx: "0 \<le> i" "i \<le> 49" "nat i < length (history (dev w))"
    and ok: "device_accepts P (cr_config (history (dev w) ! nat i))"
    and rb: "rollback (session_salt P) name (PInt i) kw w = (o1, w1)"
    and cm: "commit (session_salt P) name' kw' w1 = (o2, w2)"
  shows "(\<exists>r. o1 = Inr r) \<and> (\<exists>r. o2 = Inr r) \<and>
         active_config (dev w2) = cr_config (history (dev w) ! nat i) \<and>
         staged (dev w2) = [] \<and>
         line_diff (cr_config (history (dev w) ! nat i)) (candidate_config P (dev w2)) = [] \<and>
         field ''changes'' (diff (session_salt P) name'' d_id w2) = Some (PList [])"
proof -
  let ?c = "cr_config (history (dev w) ! nat i)"
  let ?s1 = "(dev w)\<lparr>staged := staged (dev w) @
      [\<lparr>cc_content = ?c, cc_format = Text, cc_policy = Overwrite\<rparr>]\<rparr>"
  have r1: "rollback_to i (dev w) = Inr ?s1"
    using locked idx by (rule rollback_to_valid)
  from rb have o1: "o1 = Inr ((new_ret name)(''changes'' \<mapsto> PNone))" and d1: "dev w1 = ?s1"
    by (auto simp: rollback_eq r1)
  have cand: "candidate_config P ?s1 = ?c" by (rule candidate_after_overwrite)
  let ?r = "\<lparr>cr_config = ?c, cr_comment = kw_comment kw', cr_confirm = kw_confirm kw'\<rparr>"
  let ?s2 = "?s1\<lparr>history := take 50 (?r # history ?s1), staged := []\<rparr>"
  have c2: "commit_staged P (kw_comment kw') (kw_confirm kw') ?s1 = Inr (Some ?r, ?s2)"
    using locked ok by (simp add: commit_staged_def cand Let_def)
  from cm have o2: "o2 = Inr ((new_ret name')(''changes'' \<mapsto> encode_record ?r))"
    and d2: "dev w2 = ?s2"
    by (auto simp: commit_eq d1 c2)
  have act: "active_config (dev w2) = ?c" by (simp add: d2 active_config_def)
  have st: "staged (dev w2) = []" by (simp add: d2)
  have cand2: "candidate_config P (dev w2) = ?c" by (simp add: candidate_config_def st act)
  then have ld: "line_diff ?c (candidate_config P (dev w2)) = []" by (simp add: line_diff_same)
  have "session_diff P (dev w2) = []"
    by (simp add: session_diff_def act cand2 line_diff_same)
  then have "field ''changes'' (diff (session_salt P) name'' d_id w2) = Some (PList [])"
    by (simp add: diff_eq field_def)
  with o1 o2 act st ld show ?thesis by simp
qed

theorem rollback_commit_round_trip_witness:
  "conn (dev (at_start (two_commits Locked))) = Locked \<and>
   nat 1 < length (history (dev (at_start (two_commits Locked)))) \<and>
   device_accepts strict (cr_config (history (dev (at_start (two_commits Locked))) ! nat 1)) \<and>
   active_config (dev (snd (commit (session_salt strict) (PStr ''commit the changes'') []
     (snd (rollback (session_salt strict) (PStr ''rollback the changes'') (PInt 1) []
        (at_start (two_commits Locked))))))) = [''set system host-name R1'']"
proof -
  have a: "conn (dev (at_start (two_commits Locked))) = Locked"
    by (simp add: at_start_def two_commits_def)
  have b: "(0::int) \<le> 1" "(1::int) \<le> 49"
    "nat 1 < length (history (dev (at_start (two_commits Locked))))"
    by (simp_all add: at_start_def two_commits_def)
  have c: "device_accepts strict (cr_config (history (dev (at_start (two_commits Locked))) ! nat 1))"
    by (simp add: strict_def accept_all_def)
  have d: "rollback (session_salt strict) (PStr ''rollback the changes'') (PInt 1) []
        (at_start (two_commits Locked)) =
      (fst (rollback (session_salt strict) (PStr ''rollback the changes'') (PInt 1) []
        (at_start (two_commits Locked))),
       snd (rollback (session_salt strict) (PStr ''rollback the changes'') (PInt 1) []
        (at_start (two_commits Locked))))"
    by simp
  have e: "commit (session_salt strict) (PStr ''commit the changes'') []
     (snd (rollback (session_salt strict) (PStr ''rollback the changes'') (PInt 1) []
        (at_start (two_commits Locked)))) =
      (fst (commit (session_salt strict) (PStr ''commit the changes'') []
         (snd (rollback (session_salt strict) (PStr ''rollback the changes'') (PInt 1) []
            (at_start (two_commits Locked))))),
       snd (commit (session_salt strict) (PStr ''commit the changes'') []
         (snd (rollback (session_salt strict) (PStr ''rollback the changes'') (PInt 1) []
            (at_start (two_commits Locked))))))"
    by simp
  have f: "cr_config (history (dev (at_start (two_commits Locked))) ! nat 1) =
      [''set system host-name R1'']"
    by (simp add: at_start_def two_commits_def)
  have "active_config (dev (snd (commit (session_salt strict) (PStr ''commit the changes'') []
     (snd (rollback (session_salt strict) (PStr ''rollback the changes'') (PInt 1) []
        (at_start (two_commits Locked))))))) =
      cr_config (history (dev (at_start (two_commits Locked))) ! nat 1)"
    using rollback_commit_round_trip [OF a b c d e] by (rule conjunct1 [OF conjunct2 [OF conjunct2]])
  with a b c f show ?thesis by (simp only: simp_thms)
qed

end
